theory Spec2Isabelle
  imports Complex_Main "HOL-Library.Sublist"
begin

section \<open>The career retriever: data model\<close>

text \<open>
  The development follows \<^verbatim>\<open>backend/utils/career_retriever.py\<close> (class
  \<^verbatim>\<open>CareerRetriever\<close>) and \<^verbatim>\<open>backend/agents/career_agent.py\<close>
  (\<^verbatim>\<open>RoadmapAgent._get_or_create_index\<close>).

  Python text is a \<^typ>\<open>string\<close>; one \<^typ>\<open>char\<close> stands for one code point, so the
  model covers the code points below 256. A float32 embedding vector is a list of reals:
  rounding is left out, distances are exact.
\<close>

type_synonym vec = "real list"

text \<open>A langchain \<^verbatim>\<open>Document\<close>: its text and its metadata dictionary.\<close>

record document =
  page_content :: string
  metadata :: "(string \<times> string) list"

text \<open>\<^verbatim>\<open>Document(page_content=t)\<close>: the metadata defaults to the empty dictionary.\<close>

definition Document :: "string \<Rightarrow> document" where
  "Document t = \<lparr>page_content = t, metadata = []\<rparr>"

text \<open>
  The exceptions that can leave the modelled methods. \<^verbatim>\<open>IndexError\<close> is Python's own
  (list indexing), the other three are raised inside the libraries the methods call.
\<close>

datatype error = AssertionError | IndexError | ValueError | RuntimeError

text \<open>
  The object state of a \<^verbatim>\<open>CareerRetriever\<close>: \<^verbatim>\<open>self.index\<close> is \<^verbatim>\<open>None\<close> or a
  \<^verbatim>\<open>faiss.IndexFlatL2\<close>, which is the list of the vectors added to it, in the order they
  were added (\<^verbatim>\<open>ntotal\<close> is its length); \<^verbatim>\<open>self.documents\<close> is the chunk list.
\<close>

record retriever =
  index :: "vec list option"
  documents :: "document list"

text \<open>\<^verbatim>\<open>CareerRetriever.__init__\<close>: no index, no documents.\<close>

definition init_retriever :: retriever where
  "init_retriever = \<lparr>index = None, documents = []\<rparr>"

text \<open>
  What the methods read from outside the class: the entries of \<^verbatim>\<open>get_settings()\<close> they use
  (\<^verbatim>\<open>int(os.getenv(...))\<close>, so any integer), the sentence-transformer model
  (\<^verbatim>\<open>encode\<close>, one vector per text), the langchain splitter built in
  \<^verbatim>\<open>split_documents\<close> (a function of chunk size, chunk overlap and the documents, which
  may raise), and what the scraper finds on the network for a career (the dictionary
  that \<^verbatim>\<open>CareerScraper.scrape_all_sources\<close> returns; its entry \<^verbatim>\<open>"career"\<close> is the
  field \<open>career_of\<close>).
\<close>

record video =
  title :: string
  url :: string
  channel :: string
  description :: string

record scraped =
  career_of :: string
  roadmap_sh :: string
  geeksforgeeks :: string
  freecodecamp :: string
  youtube_videos :: "video list"

record env =
  CHUNK_SIZE :: int
  CHUNK_OVERLAP :: int
  TOP_K_RESULTS :: int
  encode :: "string \<Rightarrow> vec"
  text_splitter :: "int \<Rightarrow> int \<Rightarrow> document list \<Rightarrow> error + document list"
  network :: "string \<Rightarrow> scraped"

section \<open>Semantic retrieval\<close>

text \<open>Squared Euclidean distance, the metric of \<^verbatim>\<open>IndexFlatL2\<close>.\<close>

definition l2sqr :: "vec \<Rightarrow> vec \<Rightarrow> real" where
  "l2sqr x y = sum_list (map2 (\<lambda>a b. (a - b) * (a - b)) x y)"

text \<open>The positions of the stored vectors, nearest to the query first.\<close>

definition nearest_order :: "vec list \<Rightarrow> vec \<Rightarrow> nat list" where
  "nearest_order xb q = sort_key (\<lambda>i. l2sqr q (xb ! i)) [0..<length xb]"

text \<open>
  \<^verbatim>\<open>index.search(query_vector, k)\<close> of the faiss library, for one query vector, as the
  library documents it: the Python wrapper asserts \<^verbatim>\<open>k > 0\<close>; the result row always
  has \<open>k\<close> labels, the positions of the \<open>k\<close> nearest stored vectors in ascending order of
  distance, and when fewer than \<open>k\<close> vectors are stored the remaining labels are \<open>-1\<close>.
  The distances row is not modelled: \<^verbatim>\<open>retrieve\<close> never reads it. The library does not
  document the order among vectors at the same distance; the model lists them in the
  order they were added, and no statement below depends on that choice.
\<close>

definition IndexFlatL2_search :: "vec list \<Rightarrow> vec \<Rightarrow> int \<Rightarrow> error + int list" where
  "IndexFlatL2_search xb q k =
     (if k \<le> 0 then Inl AssertionError
      else let found = take (nat k) (nearest_order xb q)
           in Inr (map int found @ replicate (nat k - length found) (- 1)))"

text \<open>Python list indexing \<^verbatim>\<open>xs[i]\<close>: a negative index counts from the end.\<close>

definition py_getitem :: "'a list \<Rightarrow> int \<Rightarrow> error + 'a" where
  "py_getitem xs i =
     (if 0 \<le> i \<and> i < int (length xs) then Inr (xs ! nat i)
      else if i < 0 \<and> - int (length xs) \<le> i then Inr (xs ! nat (int (length xs) + i))
      else Inl IndexError)"

text \<open>
  The loop of \<^verbatim>\<open>retrieve\<close>:
  \<^verbatim>\<open>for idx in indices[0]: if idx < len(self.documents): results.append(self.documents[idx])\<close>.
  The first failing subscript ends the loop with its exception.
\<close>

fun collect_results :: "document list \<Rightarrow> int list \<Rightarrow> error + document list" where
  "collect_results docs [] = Inr []"
| "collect_results docs (idx # rest) =
     (if idx < int (length docs) then
        (case py_getitem docs idx of
           Inl e \<Rightarrow> Inl e
         | Inr d \<Rightarrow>
            (case collect_results docs rest of
               Inl e \<Rightarrow> Inl e
             | Inr ds \<Rightarrow> Inr (d # ds)))
      else collect_results docs rest)"

text \<open>\<^verbatim>\<open>k or settings["TOP_K_RESULTS"]\<close>: \<^verbatim>\<open>None\<close> and \<open>0\<close> are both falsy.\<close>

definition effective_k :: "env \<Rightarrow> int option \<Rightarrow> int" where
  "effective_k e k =
     (case k of None \<Rightarrow> TOP_K_RESULTS e
      | Some n \<Rightarrow> if n = 0 then TOP_K_RESULTS e else n)"

text \<open>
  \<^verbatim>\<open>CareerRetriever.retrieve(query, k=None)\<close>. The method changes no attribute, so the
  model returns the result only.
\<close>

definition retrieve :: "env \<Rightarrow> retriever \<Rightarrow> string \<Rightarrow> int option \<Rightarrow> error + document list" where
  "retrieve e r query k =
     (case index r of
        None \<Rightarrow> Inr []
      | Some xb \<Rightarrow>
         (case IndexFlatL2_search xb (encode e query) (effective_k e k) of
            Inl err \<Rightarrow> Inl err
          | Inr labels \<Rightarrow> collect_results (documents r) labels))"

section \<open>Python text operations\<close>

text \<open>\<^verbatim>\<open>str.isspace\<close> on one character, for the code points below 256.\<close>

definition py_isspace :: "char \<Rightarrow> bool" where
  "py_isspace c =
     (let n = (of_char c :: nat)
      in (9 \<le> n \<and> n \<le> 13) \<or> (28 \<le> n \<and> n \<le> 32) \<or> n = 133 \<or> n = 160)"

text \<open>\<^verbatim>\<open>str.strip()\<close>: leading and trailing whitespace removed.\<close>

definition py_strip :: "string \<Rightarrow> string" where
  "py_strip s = rev (dropWhile py_isspace (rev (dropWhile py_isspace s)))"

text \<open>\<^verbatim>\<open>str.lower()\<close> on one character, for the code points below 256.\<close>

definition py_lower_char :: "char \<Rightarrow> char" where
  "py_lower_char c =
     (let n = (of_char c :: nat)
      in if (65 \<le> n \<and> n \<le> 90) \<or> (192 \<le> n \<and> n \<le> 222 \<and> n \<noteq> 215)
         then char_of (n + 32) else c)"

text \<open>\<^verbatim>\<open>career.replace(' ', '_').lower()\<close>, the stem of every file name of a career.\<close>

definition base_name :: "string \<Rightarrow> string" where
  "base_name career =
     map py_lower_char (map (\<lambda>c. if c = CHR '' '' then CHR ''_'' else c) career)"

text \<open>
  \<^verbatim>\<open>s.split(sep)\<close> for a non-empty separator: the text is cut at each occurrence of the
  separator, found from the left, occurrences not overlapping. (Python raises on an
  empty separator; no call below passes one.)
\<close>

fun cons_first :: "char \<Rightarrow> string list \<Rightarrow> string list" where
  "cons_first c [] = [[c]]"
| "cons_first c (p # ps) = (c # p) # ps"

function py_split :: "string \<Rightarrow> string \<Rightarrow> string list" where
  "py_split sep [] = [[]]"
| "py_split sep (c # s) =
     (if sep \<noteq> [] \<and> prefix sep (c # s)
      then [] # py_split sep (drop (length sep) (c # s))
      else cons_first c (py_split sep s))"
  by pat_completeness auto
termination
  by (relation "measure (\<lambda>(sep, s). length s)") (auto simp: Suc_le_eq)

text \<open>
  Reading a file opened in text mode with the default \<^verbatim>\<open>newline=None\<close>: each
  \<^verbatim>\<open>\r\n\<close> and each remaining \<^verbatim>\<open>\r\<close> arrives as \<^verbatim>\<open>\n\<close>. Writing on a POSIX system
  stores the text unchanged.
\<close>

fun universal_newlines :: "string \<Rightarrow> string" where
  "universal_newlines [] = []"
| "universal_newlines [c] = [if c = CHR 0x0D then CHR 0x0A else c]"
| "universal_newlines (c # d # s) =
     (if c = CHR 0x0D \<and> d = CHR 0x0A then CHR 0x0A # universal_newlines s
      else if c = CHR 0x0D then CHR 0x0A # universal_newlines (d # s)
      else c # universal_newlines (d # s))"

section \<open>Files\<close>

text \<open>
  A text file holds text, or bytes that \<^verbatim>\<open>open(..., encoding="utf-8").read()\<close> cannot
  deliver (the read raises). A faiss index file holds the stored vectors, or bytes that
  \<^verbatim>\<open>faiss.read_index\<close> rejects. \<^verbatim>\<open>faiss.write_index\<close> followed by
  \<^verbatim>\<open>faiss.read_index\<close> gives the same vectors in the same order.
\<close>

datatype text_file = Text string | Undecodable

datatype faiss_file = Faiss "vec list" | Corrupt

text \<open>
  The two directories of the settings. \<^verbatim>\<open>RAW_DATA_PATH\<close> may not exist
  (\<open>None\<close>); when it exists it is a directory listing, file name and content, in the
  order the operating system lists it. \<^verbatim>\<open>FAISS_INDEX_PATH\<close> holds index files and
  manifest files, each looked up by its file name. The two paths are taken to be
  different directories, as the defaults are.
\<close>

record filesystem =
  raw_data :: "(string \<times> text_file) list option"
  index_files :: "string \<rightharpoonup> faiss_file"
  docs_files :: "string \<rightharpoonup> text_file"


section \<open>The scraper's output file\<close>




text \<open>
  \<^verbatim>\<open>CareerScraper.save_scraped_data(career, data)\<close>: creates the raw-data directory when
  it is missing and writes \<^verbatim>\<open><base>_data.txt\<close>.
\<close>

definition data_file :: "string \<Rightarrow> string" where
  "data_file career = base_name career @ ''_data.txt''"


section \<open>Document loading and chunking\<close>

text \<open>
  The body of the loop of \<^verbatim>\<open>load_documents\<close> for one file: a file that cannot be read is
  skipped (the exception is caught and printed), and so is a file whose text is empty
  after \<^verbatim>\<open>strip()\<close>.
\<close>

definition read_document :: "string option \<Rightarrow> string \<times> text_file \<Rightarrow> document list" where
  "read_document career nf =
     (case snd nf of
        Undecodable \<Rightarrow> []
      | Text t \<Rightarrow>
         (let content = py_strip (universal_newlines t)
          in if content \<noteq> []
             then [\<lparr>page_content = content,
                    metadata = [(''source'', fst nf),
                                (''career'', (case career of None \<Rightarrow> ''general''
                                              | Some c \<Rightarrow> if c = [] then ''general'' else c))]\<rparr>]
             else []))"

text \<open>
  \<^verbatim>\<open>CareerRetriever.load_documents(career=None)\<close>. \<^verbatim>\<open>if career:\<close> is false for
  \<^verbatim>\<open>None\<close> and for the empty string; then every \<^verbatim>\<open>*.txt\<close> file of the directory is read.
\<close>

definition load_documents :: "string option \<Rightarrow> filesystem \<Rightarrow> document list" where
  "load_documents career fs =
     (case raw_data fs of
        None \<Rightarrow> []
      | Some listing \<Rightarrow>
         (let files =
            (case career of
               None \<Rightarrow> filter (\<lambda>nf. suffix ''.txt'' (fst nf)) listing
             | Some c \<Rightarrow>
                if c = [] then filter (\<lambda>nf. suffix ''.txt'' (fst nf)) listing
                else (case map_of listing (data_file c) of
                        None \<Rightarrow> []
                      | Some f \<Rightarrow> [(data_file c, f)]))
          in concat (map (read_document career) files)))"

text \<open>
  \<^verbatim>\<open>CareerRetriever.split_documents\<close>: the splitter of the langchain library with the
  two settings.
\<close>

definition split_documents :: "env \<Rightarrow> document list \<Rightarrow> error + document list" where
  "split_documents e docs = text_splitter e (CHUNK_SIZE e) (CHUNK_OVERLAP e) docs"

section \<open>Embedding and index management\<close>

text \<open>\<^verbatim>\<open>CareerRetriever.create_embeddings\<close>: one vector per text, in order.\<close>

definition create_embeddings :: "env \<Rightarrow> string list \<Rightarrow> vec list" where
  "create_embeddings e texts = map (encode e) texts"

text \<open>
  \<^verbatim>\<open>CareerRetriever.build_index(career=None)\<close>. The method returns \<^verbatim>\<open>None\<close> on both of
  its return paths; the model returns \<open>Inr ()\<close> with the new object state. An exception
  of the splitter leaves the method before any attribute is assigned. When the
  splitter yields no chunk, the array of embeddings has no second dimension and
  \<^verbatim>\<open>index.add\<close> raises \<^verbatim>\<open>ValueError\<close> unpacking its shape, after \<^verbatim>\<open>self.documents\<close>
  and \<^verbatim>\<open>self.index\<close> (a new, empty index) have been assigned.
\<close>

definition build_index :: "env \<Rightarrow> string option \<Rightarrow> retriever \<Rightarrow> filesystem \<Rightarrow> (error + unit) \<times> retriever" where
  "build_index e career r fs =
     (let docs = load_documents career fs
      in if docs = [] then (Inr (), r)
         else
           (case split_documents e docs of
              Inl err \<Rightarrow> (Inl err, r)
            | Inr chunks \<Rightarrow>
               (let r1 = r\<lparr>documents := chunks\<rparr>;
                    embeddings = create_embeddings e (map page_content chunks)
                in if embeddings = [] then (Inl ValueError, r1\<lparr>index := Some []\<rparr>)
                   else (Inr (), r1\<lparr>index := Some embeddings\<rparr>))))"

text \<open>The two file names of a career under \<^verbatim>\<open>FAISS_INDEX_PATH\<close>, and the separator.\<close>

definition index_file :: "string \<Rightarrow> string" where
  "index_file career = base_name career @ ''_index.faiss''"

definition docs_file :: "string \<Rightarrow> string" where
  "docs_file career = base_name career @ ''_docs.txt''"

definition DOCUMENT_SEPARATOR :: string where
  "DOCUMENT_SEPARATOR = ''\<newline>---DOCUMENT_SEPARATOR---\<newline>''"

text \<open>The text \<^verbatim>\<open>save_index\<close> writes: each chunk followed by the separator.\<close>

definition manifest :: "document list \<Rightarrow> string" where
  "manifest docs = concat (map (\<lambda>d. page_content d @ DOCUMENT_SEPARATOR) docs)"

text \<open>\<^verbatim>\<open>CareerRetriever.save_index(career)\<close>: nothing is written when there is no index.\<close>

definition save_index :: "string \<Rightarrow> retriever \<Rightarrow> filesystem \<Rightarrow> filesystem" where
  "save_index career r fs =
     (case index r of
        None \<Rightarrow> fs
      | Some xb \<Rightarrow>
         fs\<lparr>index_files := (index_files fs)(index_file career \<mapsto> Faiss xb),
            docs_files := (docs_files fs)(docs_file career \<mapsto> Text (manifest (documents r)))\<rparr>)"

text \<open>
  The list comprehension of \<^verbatim>\<open>load_index\<close>:
  \<^verbatim>\<open>[Document(page_content=t.strip()) for t in texts if t.strip()]\<close>.
\<close>

definition parse_manifest :: "string \<Rightarrow> document list" where
  "parse_manifest content =
     map (\<lambda>t. Document (py_strip t))
       (filter (\<lambda>t. py_strip t \<noteq> []) (py_split DOCUMENT_SEPARATOR content))"

text \<open>
  \<^verbatim>\<open>CareerRetriever.load_index(career)\<close>. \<^verbatim>\<open>faiss.read_index\<close> stands outside the
  \<^verbatim>\<open>try\<close>: its exception leaves the method, before \<^verbatim>\<open>self.index\<close> is assigned. The
  manifest is read inside the \<^verbatim>\<open>try\<close>, after \<^verbatim>\<open>self.index\<close> has been assigned: a
  missing or unreadable manifest gives \<^verbatim>\<open>False\<close>.
\<close>

definition load_index :: "string \<Rightarrow> retriever \<Rightarrow> filesystem \<Rightarrow> (error + bool) \<times> retriever" where
  "load_index career r fs =
     (case index_files fs (index_file career) of
        None \<Rightarrow> (Inr False, r)
      | Some Corrupt \<Rightarrow> (Inl RuntimeError, r)
      | Some (Faiss xb) \<Rightarrow>
         (let r1 = r\<lparr>index := Some xb\<rparr>
          in case docs_files fs (docs_file career) of
               Some (Text content) \<Rightarrow>
                 (Inr True, r1\<lparr>documents := parse_manifest (universal_newlines content)\<rparr>)
             | _ \<Rightarrow> (Inr False, r1)))"

section \<open>Load or build\<close>


section \<open>The chunker\<close>

text \<open>
  Modelled from the spec: the chunker of section 4.1 of the specification. In the
  repository it is the \<^verbatim>\<open>RecursiveCharacterTextSplitter\<close> of the langchain library, whose
  code is not among the repository's files; \<^verbatim>\<open>split_documents\<close> only passes it the chunk
  size, the overlap and the separators (paragraph break, line break, full stop, blank,
  and the empty separator for the cut between any two characters). The definitions of
  this section follow the library's algorithm for that configuration: natural
  boundaries are preferred in the order of the separators, a chunk starts with the end
  of its predecessor up to the overlap, and lengths are counted in characters.
\<close>

text \<open>Sequencing of steps that may raise: the first exception ends the computation.\<close>

definition bind_result :: "error + 'a \<Rightarrow> ('a \<Rightarrow> error + 'b) \<Rightarrow> error + 'b" where
  "bind_result m f = (case m of Inl err \<Rightarrow> Inl err | Inr x \<Rightarrow> f x)"

text \<open>
  \<^verbatim>\<open>_split_text_with_regex(text, separator, keep_separator=True)\<close>: the text is cut at
  the separator, each separator stays at the start of the piece that follows it, and
  empty pieces are dropped; the empty separator cuts the text into its characters.
\<close>

definition split_text_with_regex :: "string \<Rightarrow> string \<Rightarrow> string list" where
  "split_text_with_regex text separator =
     filter (\<lambda>s. s \<noteq> [])
       (if separator = [] then map (\<lambda>c. [c]) text
        else (case py_split separator text of
                [] \<Rightarrow> []
              | first # others \<Rightarrow> first # map (\<lambda>p. separator @ p) others))"

text \<open>
  \<^verbatim>\<open>_join_docs(docs, "")\<close>: the pieces joined and stripped; \<^verbatim>\<open>None\<close> when nothing is
  left.
\<close>

definition join_docs :: "string list \<Rightarrow> string option" where
  "join_docs docs =
     (let text = py_strip (concat docs) in if text = [] then None else Some text)"

text \<open>
  The \<^verbatim>\<open>while\<close> loop of \<^verbatim>\<open>_merge_splits\<close>: pieces are removed from the front of
  \<^verbatim>\<open>current_doc\<close> while \<^verbatim>\<open>total\<close> exceeds the overlap, or while the next piece does not
  fit and \<^verbatim>\<open>total\<close> is positive. \<^verbatim>\<open>current_doc[0]\<close> of an empty list raises.
\<close>

fun pop_overlap :: "int \<Rightarrow> int \<Rightarrow> int \<Rightarrow> string list \<Rightarrow> int \<Rightarrow> error + string list \<times> int" where
  "pop_overlap chunk_size chunk_overlap len [] total_len =
     (if total_len > chunk_overlap \<or> (total_len + len > chunk_size \<and> total_len > 0)
      then Inl IndexError else Inr ([], total_len))"
| "pop_overlap chunk_size chunk_overlap len (first # rest) total_len =
     (if total_len > chunk_overlap \<or> (total_len + len > chunk_size \<and> total_len > 0)
      then pop_overlap chunk_size chunk_overlap len rest (total_len - int (length first))
      else Inr (first # rest, total_len))"

text \<open>
  The \<^verbatim>\<open>for\<close> loop of \<^verbatim>\<open>_merge_splits(splits, "")\<close> over the pieces, with its three
  variables \<^verbatim>\<open>docs\<close>, \<^verbatim>\<open>current_doc\<close> and \<^verbatim>\<open>total\<close>; after the loop the last
  \<^verbatim>\<open>current_doc\<close> is joined. The separator between merged pieces is empty, because the
  pieces keep their separators.
\<close>

fun merge_loop :: "int \<Rightarrow> int \<Rightarrow> string list \<Rightarrow> string list \<Rightarrow> int \<Rightarrow> string list \<Rightarrow> error + string list" where
  "merge_loop chunk_size chunk_overlap docs current_doc total_len [] =
     Inr (docs @ (case join_docs current_doc of None \<Rightarrow> [] | Some doc \<Rightarrow> [doc]))"
| "merge_loop chunk_size chunk_overlap docs current_doc total_len (d # splits) =
     (if total_len + int (length d) > chunk_size \<and> current_doc \<noteq> [] then
        bind_result (pop_overlap chunk_size chunk_overlap (int (length d)) current_doc total_len)
          (\<lambda>(kept, total2).
             merge_loop chunk_size chunk_overlap
               (docs @ (case join_docs current_doc of None \<Rightarrow> [] | Some doc \<Rightarrow> [doc]))
               (kept @ [d]) (total2 + int (length d)) splits)
      else merge_loop chunk_size chunk_overlap docs (current_doc @ [d])
             (total_len + int (length d)) splits)"

definition merge_splits :: "int \<Rightarrow> int \<Rightarrow> string list \<Rightarrow> error + string list" where
  "merge_splits chunk_size chunk_overlap splits = merge_loop chunk_size chunk_overlap [] [] 0 splits"

text \<open>
  The first loop of \<^verbatim>\<open>_split_text\<close>: the first separator of the list that is empty or
  occurs in the text, with the separators after it (none after the empty separator).
\<close>

fun choose_separator :: "string list \<Rightarrow> string \<Rightarrow> (string \<times> string list) option" where
  "choose_separator [] text = None"
| "choose_separator (s # rest) text =
     (if s = [] then Some ([], [])
      else if sublist s text then Some (s, rest)
      else choose_separator rest text)"

text \<open>
  The second loop of \<^verbatim>\<open>_split_text\<close>, over the pieces: pieces shorter than the chunk
  size are collected in \<^verbatim>\<open>_good_splits\<close>; a piece that is not shorter first has the
  collected ones merged, and is then cut again with the remaining separators
  (\<open>deeper\<close>), or kept as it is when no separator remains.
\<close>

fun split_loop ::
    "int \<Rightarrow> int \<Rightarrow> (string \<Rightarrow> error + string list) option \<Rightarrow> string list \<Rightarrow> string list \<Rightarrow> error + string list" where
  "split_loop chunk_size chunk_overlap deeper good_splits [] =
     (if good_splits \<noteq> [] then merge_splits chunk_size chunk_overlap good_splits else Inr [])"
| "split_loop chunk_size chunk_overlap deeper good_splits (s # splits) =
     (if int (length s) < chunk_size
      then split_loop chunk_size chunk_overlap deeper (good_splits @ [s]) splits
      else
        bind_result (if good_splits \<noteq> [] then merge_splits chunk_size chunk_overlap good_splits
                     else Inr [])
          (\<lambda>merged_text.
             bind_result (case deeper of None \<Rightarrow> Inr [s] | Some split_deeper \<Rightarrow> split_deeper s)
               (\<lambda>other_info.
                  bind_result (split_loop chunk_size chunk_overlap deeper [] splits)
                    (\<lambda>final_chunks. Inr (merged_text @ other_info @ final_chunks)))))"

text \<open>
  \<^verbatim>\<open>_split_text(text, separators)\<close>. \<^verbatim>\<open>separators[-1]\<close> of an empty list raises; when
  no separator of the list applies, the last one is used and none remains.
\<close>

function split_text :: "int \<Rightarrow> int \<Rightarrow> string list \<Rightarrow> string \<Rightarrow> error + string list" where
  "split_text chunk_size chunk_overlap separators text =
     (if separators = [] then Inl IndexError
      else
        (case (case choose_separator separators text of
                 None \<Rightarrow> (last separators, [])
               | Some found \<Rightarrow> found) of
           (separator, new_separators) \<Rightarrow>
             split_loop chunk_size chunk_overlap
               (if new_separators = [] then None
                else Some (split_text chunk_size chunk_overlap new_separators))
               [] (split_text_with_regex text separator)))"
  by pat_completeness auto
termination
proof (relation "measure (\<lambda>(chunk_size, chunk_overlap, separators, text). length separators)")
  fix chunk_size chunk_overlap :: int and separators :: "string list" and "text" :: string
    and separator new_separators s
  assume "separators \<noteq> []"
    and "(separator, new_separators) =
         (case choose_separator separators text of
            None \<Rightarrow> (last separators, []) | Some found \<Rightarrow> found)"
    and "new_separators \<noteq> []"
  then have "choose_separator separators text = Some (separator, new_separators)"
    by (auto split: option.splits)
  then have "length new_separators < length separators"
    by (induction separators) (auto split: if_splits)
  then show "((chunk_size, chunk_overlap, new_separators, s), chunk_size, chunk_overlap, separators, text)
      \<in> measure (\<lambda>(chunk_size, chunk_overlap, separators, text). length separators)"
    by simp
qed simp

declare split_text.simps [simp del]

text \<open>The separators that \<^verbatim>\<open>split_documents\<close> passes to the splitter.\<close>

definition SEPARATORS :: "string list" where
  "SEPARATORS = [''\<newline>\<newline>'', ''\<newline>'', ''.'', '' '', []]"

text \<open>
  \<^verbatim>\<open>split_documents\<close> of the splitter: every chunk of a document is a document with a
  copy of its metadata.
\<close>

fun create_documents :: "int \<Rightarrow> int \<Rightarrow> document list \<Rightarrow> error + document list" where
  "create_documents chunk_size chunk_overlap [] = Inr []"
| "create_documents chunk_size chunk_overlap (doc # docs) =
     bind_result (split_text chunk_size chunk_overlap SEPARATORS (page_content doc))
       (\<lambda>chunks.
          bind_result (create_documents chunk_size chunk_overlap docs)
            (\<lambda>others.
               Inr (map (\<lambda>chunk. \<lparr>page_content = chunk, metadata = metadata doc\<rparr>) chunks @ others)))"

text \<open>
  The splitter built in \<^verbatim>\<open>CareerRetriever.split_documents\<close>: the constructor rejects a
  chunk size that is not positive, a negative overlap and an overlap above the chunk
  size.
\<close>

definition RecursiveCharacterTextSplitter :: "int \<Rightarrow> int \<Rightarrow> document list \<Rightarrow> error + document list" where
  "RecursiveCharacterTextSplitter chunk_size chunk_overlap docs =
     (if chunk_size \<le> 0 \<or> chunk_overlap < 0 \<or> chunk_overlap > chunk_size then Inl ValueError
      else create_documents chunk_size chunk_overlap docs)"

section \<open>Predicates of the statements\<close>

text \<open>
  The index and the chunk list agree: the index holds one vector per chunk, and the
  vector at position \<open>i\<close> is the embedding of chunk \<open>i\<close>.
\<close>

definition aligned :: "env \<Rightarrow> retriever \<Rightarrow> bool" where
  "aligned e r = (index r = Some (map (\<lambda>d. encode e (page_content d)) (documents r)))"

text \<open>
  A chunk text that the manifest format keeps: it is not empty, \<^verbatim>\<open>strip()\<close> leaves it
  as it is, it has no carriage return, and the separator occurs nowhere in the chunk,
  not even across the end of the chunk and the start of the separator written after it.
\<close>

definition manifest_safe :: "string \<Rightarrow> bool" where
  "manifest_safe c =
     (c \<noteq> [] \<and> py_strip c = c \<and> CHR 0x0D \<notin> set c \<and>
      \<not> sublist DOCUMENT_SEPARATOR (c @ butlast DOCUMENT_SEPARATOR))"

section \<open>Concrete inputs\<close>

text \<open>
  A small embedding (length of the text, number of letters a), a splitter that keeps
  each document as one chunk, and a network that answers with short pages.
\<close>

definition demo_encode :: "string \<Rightarrow> vec" where
  "demo_encode s = [real (length s), real (length (filter (\<lambda>c. c = CHR ''a'') s))]"

definition demo_env :: env where
  "demo_env =
     \<lparr>CHUNK_SIZE = 1000, CHUNK_OVERLAP = 200, TOP_K_RESULTS = 5,
      encode = demo_encode,
      text_splitter = (\<lambda>size overlap docs. Inr docs),
      network = (\<lambda>c. \<lparr>career_of = c, roadmap_sh = ''Roadmap'', geeksforgeeks = ''Guide'',
                        freecodecamp = ''Resources'', youtube_videos = []\<rparr>)\<rparr>"

text \<open>A retriever holding three chunks and their three embeddings.\<close>

definition three_chunks :: retriever where
  "three_chunks =
     \<lparr>index = Some (map demo_encode [''aaa'', ''bb'', ''c'']),
      documents = map Document [''aaa'', ''bb'', ''c'']\<rparr>"

text \<open>
  A retriever with three chunks: one contains the separator line, one has blanks
  around its text, one is blank.
\<close>

definition steps_chunks :: "string list" where
  "steps_chunks = [''Step 1'' @ DOCUMENT_SEPARATOR @ ''Step 2'', ''  padded  '', ''   '']"

definition steps_retriever :: retriever where
  "steps_retriever =
     \<lparr>index = Some (map demo_encode steps_chunks), documents = map Document steps_chunks\<rparr>"


text \<open>A retriever with two chunks of ordinary text.\<close>

definition plain_retriever :: retriever where
  "plain_retriever =
     \<lparr>index = Some (map demo_encode [''Learn HTML and CSS.\<newline>Then learn JavaScript.'', ''Build a project'']),
      documents = map Document [''Learn HTML and CSS.\<newline>Then learn JavaScript.'', ''Build a project'']\<rparr>"

text \<open>
  The settings and the document of the scenario of section 8 of the specification, with
  the langchain splitter.
\<close>

definition splitter_env :: env where
  "splitter_env = demo_env\<lparr>CHUNK_SIZE := 40, CHUNK_OVERLAP := 10,
                            text_splitter := RecursiveCharacterTextSplitter\<rparr>"

definition scenario_document :: document where
  "scenario_document =
     Document ''Python is great for data science and has role in machine learning.''"

text \<open>No directory and no file; a scraped file for one career; an index file of two
  vectors beside a manifest of one chunk; an index file without a manifest; an index
  file that faiss rejects.\<close>

definition no_files :: filesystem where
  "no_files = \<lparr>raw_data = None, index_files = Map.empty, docs_files = Map.empty\<rparr>"

definition python_files :: filesystem where
  "python_files = no_files\<lparr>raw_data := Some [(''python_data.txt'', Text ''Learn Python basics'')]\<rparr>"

definition mismatched_files :: filesystem where
  "mismatched_files =
     no_files\<lparr>index_files := [''python_index.faiss'' \<mapsto> Faiss [[1, 0], [2, 0]]],
              docs_files := [''python_docs.txt'' \<mapsto> Text (''only chunk'' @ DOCUMENT_SEPARATOR)]\<rparr>"

definition index_only_files :: filesystem where
  "index_only_files = no_files\<lparr>index_files := [''python_index.faiss'' \<mapsto> Faiss [[1, 0], [2, 0]]]\<rparr>"

definition corrupt_files :: filesystem where
  "corrupt_files = no_files\<lparr>index_files := [''python_index.faiss'' \<mapsto> Corrupt]\<rparr>"

section \<open>Retrieval: auxiliary facts\<close>

lemma collect_results_append:
  "collect_results docs (xs @ ys) =
     (case collect_results docs xs of
        Inl e \<Rightarrow> Inl e
      | Inr a \<Rightarrow> (case collect_results docs ys of Inl e \<Rightarrow> Inl e | Inr b \<Rightarrow> Inr (a @ b)))"
  by (induction xs) (auto split: sum.splits)

lemma collect_results_valid:
  "\<forall>i\<in>set found. i < length docs \<Longrightarrow>
   collect_results docs (map int found) = Inr (map (\<lambda>i. docs ! i) found)"
  by (induction found) (auto simp: py_getitem_def)

text \<open>The label \<open>-1\<close> passes the test \<^verbatim>\<open>idx < len(self.documents)\<close> and selects the last chunk.\<close>

lemma collect_results_padding:
  "docs \<noteq> [] \<Longrightarrow> collect_results docs (replicate m (- 1)) = Inr (replicate m (last docs))"
proof (induction m)
  case 0
  show ?case by simp
next
  case (Suc m)
  have "py_getitem docs (- 1) = Inr (last docs)"
    using Suc.prems by (cases docs rule: rev_cases) (auto simp: py_getitem_def nth_append)
  with Suc show ?case by simp
qed

lemma set_nearest_order: "set (nearest_order xb q) = {0..<length xb}"
  by (simp add: nearest_order_def)

lemma length_nearest_order: "length (nearest_order xb q) = length xb"
  by (simp add: nearest_order_def)

lemma sorted_nearest_order: "sorted (map (\<lambda>i. l2sqr q (xb ! i)) (nearest_order xb q))"
  by (simp add: nearest_order_def)

text \<open>
  What \<^verbatim>\<open>retrieve\<close> returns when the index holds as many vectors as there are chunks,
  at least one: the chunks at the nearest positions, then one copy of the last chunk for
  every label \<open>-1\<close>.
\<close>

lemma retrieve_ready:
  assumes "index r = Some xb" "length xb = length (documents r)" "documents r \<noteq> []"
    and "0 < effective_k e k"
  shows "retrieve e r q k =
    Inr (map (\<lambda>i. documents r ! i) (take (nat (effective_k e k)) (nearest_order xb (encode e q)))
         @ replicate (nat (effective_k e k) - length xb) (last (documents r)))"
proof -
  let ?found = "take (nat (effective_k e k)) (nearest_order xb (encode e q))"
  have "\<forall>i\<in>set ?found. i < length (documents r)"
    using assms(2) set_nearest_order[of xb "encode e q"] by (auto dest: in_set_takeD)
  then have a: "collect_results (documents r) (map int ?found) = Inr (map (\<lambda>i. documents r ! i) ?found)"
    by (rule collect_results_valid)
  have len: "nat (effective_k e k) - length ?found = nat (effective_k e k) - length xb"
    by (simp add: length_nearest_order)
  show ?thesis
    using assms(1,4) a collect_results_padding[OF assms(3)]
    by (simp add: retrieve_def IndexFlatL2_search_def collect_results_append Let_def len del: length_take)
qed

text \<open>
  With \<open>1 \<le> k \<le> N\<close> on an aligned retriever, \<^verbatim>\<open>retrieve\<close> returns \<open>k\<close> chunks in
  ascending order of their distance to the query.
\<close>

lemma retrieve_sorted_within_capacity:
  assumes al: "aligned e r" and k: "0 < k" "nat k \<le> length (documents r)"
  shows "\<exists>ds. retrieve e r q (Some k) = Inr ds \<and> length ds = nat k \<and>
              sorted (map (\<lambda>d. l2sqr (encode e q) (encode e (page_content d))) ds)"
proof -
  let ?xb = "map (\<lambda>d. encode e (page_content d)) (documents r)"
  let ?order = "nearest_order ?xb (encode e q)"
  let ?ds = "map (\<lambda>i. documents r ! i) (take (nat k) ?order)"
  have ix: "index r = Some ?xb" using al by (simp add: aligned_def)
  have ek: "effective_k e (Some k) = k" using k(1) by (simp add: effective_k_def)
  have ne: "documents r \<noteq> []" using k by auto
  have "retrieve e r q (Some k) = Inr (?ds @ replicate (nat k - length ?xb) (last (documents r)))"
    using retrieve_ready[OF ix _ ne, of e "Some k" q] k(1) by (simp add: ek)
  then have res: "retrieve e r q (Some k) = Inr ?ds" using k(2) by simp
  have len: "length ?ds = nat k" using k(2) by (simp add: length_nearest_order)
  have "\<forall>i\<in>set (take (nat k) ?order). i < length (documents r)"
    using set_nearest_order[of ?xb "encode e q"] by (auto dest: in_set_takeD)
  then have "map (\<lambda>d. l2sqr (encode e q) (encode e (page_content d))) ?ds
      = map (\<lambda>i. l2sqr (encode e q) (?xb ! i)) (take (nat k) ?order)"
    by (simp add: comp_def)
  also have "\<dots> = take (nat k) (map (\<lambda>i. l2sqr (encode e q) (?xb ! i)) ?order)"
    by (simp add: take_map)
  finally have "sorted (map (\<lambda>d. l2sqr (encode e q) (encode e (page_content d))) ?ds)"
    using sorted_nearest_order[of "encode e q" ?xb] by (simp add: sorted_wrt_take)
  with res len show ?thesis by blast
qed

section \<open>Retrieval: the claims\<close>

text \<open>
  Claim C1, as the code has it. On a retriever without an index, \<^verbatim>\<open>retrieve\<close> returns the
  empty list for every query and every \<open>k\<close>; it raises nothing.
\<close>

theorem retrieve_unbuilt_returns_empty:
  "index r = None \<Longrightarrow> retrieve e r query k = Inr []"
  by (simp add: retrieve_def)

theorem retrieve_unbuilt_returns_empty_witness:
  "index init_retriever = None \<and>
   retrieve demo_env init_retriever ''data science roadmap'' (Some 3) = Inr []"
  using retrieve_unbuilt_returns_empty[of init_retriever demo_env "''data science roadmap''" "Some 3"]
  by (simp add: init_retriever_def)

text \<open>
  Claim C1 as stated fails: on the freshly constructed retriever the call is not an error.
\<close>

theorem retrieve_unbuilt_no_error:
  "\<not> isl (retrieve demo_env init_retriever ''python developer'' None)"
  by (simp add: retrieve_def init_retriever_def)

text \<open>
  Claim C2 at a failing input. The index holds three vectors and \<open>k = 10\<close>: the result has
  ten entries, the three chunks nearest first and then seven more copies of the last
  chunk, one for each label \<open>-1\<close>.
\<close>

theorem retrieve_k_beyond_stored_duplicates:
  "retrieve demo_env three_chunks ''q'' (Some 10) =
     Inr (map Document [''c'', ''bb'', ''aaa'', ''c'', ''c'', ''c'', ''c'', ''c'', ''c'', ''c''])"
  by code_simp

text \<open>
  Claim C7 at a failing input. The index holds three vectors and \<open>k = 5\<close>: the copies of the
  last chunk follow chunks that are farther from the query, so the distances of the
  result are not ascending.
\<close>

theorem retrieve_k_beyond_stored_unsorted:
  "retrieve demo_env three_chunks ''q'' (Some 5) =
     Inr (map Document [''c'', ''bb'', ''aaa'', ''c'', ''c'']) \<and>
   map (\<lambda>d. l2sqr (encode demo_env ''q'') (encode demo_env (page_content d)))
     (map Document [''c'', ''bb'', ''aaa'', ''c'', ''c'']) = [0, 1, 13, 0, 0] \<and>
   \<not> sorted [0, 1, 13, 0, 0 :: real]"
  by code_simp

text \<open>
  Claim C10. \<^verbatim>\<open>retrieve\<close> with \<open>k\<close> omitted or \<open>k = 0\<close> is \<^verbatim>\<open>retrieve\<close> with the
  configured \<^verbatim>\<open>TOP_K_RESULTS\<close>; on a retriever whose index holds one vector per chunk, at
  least one, and with a positive \<^verbatim>\<open>TOP_K_RESULTS\<close>, the result has that many entries, so
  it is not empty.
\<close>

theorem retrieve_falsy_k_uses_top_k:
  assumes "index r = Some xb" "length xb = length (documents r)" "documents r \<noteq> []"
    and "0 < TOP_K_RESULTS e"
  shows "retrieve e r q None = retrieve e r q (Some (TOP_K_RESULTS e)) \<and>
         retrieve e r q (Some 0) = retrieve e r q (Some (TOP_K_RESULTS e)) \<and>
         (\<exists>ds. retrieve e r q (Some 0) = Inr ds \<and> length ds = nat (TOP_K_RESULTS e) \<and> ds \<noteq> [])"
proof -
  have k: "effective_k e (Some 0) = TOP_K_RESULTS e"
    and k': "effective_k e None = TOP_K_RESULTS e"
    and k'': "effective_k e (Some (TOP_K_RESULTS e)) = TOP_K_RESULTS e"
    by (simp_all add: effective_k_def)
  have none: "retrieve e r q None = retrieve e r q (Some (TOP_K_RESULTS e))"
    unfolding retrieve_def k' k'' ..
  have zero: "retrieve e r q (Some 0) = retrieve e r q (Some (TOP_K_RESULTS e))"
    unfolding retrieve_def k k'' ..
  have "0 < effective_k e (Some 0)" using assms(4) k by simp
  from retrieve_ready[OF assms(1-3) this, of q]
  obtain ds where ds: "retrieve e r q (Some 0) = Inr ds"
    and len: "length ds = min (length xb) (nat (TOP_K_RESULTS e)) + (nat (TOP_K_RESULTS e) - length xb)"
    by (simp add: k length_nearest_order)
  from len have "length ds = nat (TOP_K_RESULTS e)" by linarith
  moreover from this assms(4) have "ds \<noteq> []" by auto
  ultimately have "\<exists>ds. retrieve e r q (Some 0) = Inr ds \<and> length ds = nat (TOP_K_RESULTS e) \<and> ds \<noteq> []"
    using ds by blast
  with none zero show ?thesis by blast
qed

theorem retrieve_falsy_k_uses_top_k_witness:
  "index three_chunks = Some (map demo_encode [''aaa'', ''bb'', ''c'']) \<and>
   length (map demo_encode [''aaa'', ''bb'', ''c'']) = length (documents three_chunks) \<and>
   documents three_chunks \<noteq> [] \<and> 0 < TOP_K_RESULTS demo_env \<and>
   retrieve demo_env three_chunks ''q'' None = retrieve demo_env three_chunks ''q'' (Some 5) \<and>
   retrieve demo_env three_chunks ''q'' (Some 0) = retrieve demo_env three_chunks ''q'' (Some 5) \<and>
   (\<exists>ds. retrieve demo_env three_chunks ''q'' (Some 0) = Inr ds \<and> length ds = 5 \<and> ds \<noteq> [])"
proof -
  have h: "index three_chunks = Some (map demo_encode [''aaa'', ''bb'', ''c''])"
     "length (map demo_encode [''aaa'', ''bb'', ''c'']) = length (documents three_chunks)"
     "documents three_chunks \<noteq> []" "0 < TOP_K_RESULTS demo_env"
    by (simp_all add: three_chunks_def demo_env_def)
  have top: "TOP_K_RESULTS demo_env = 5" by (simp add: demo_env_def)
  note t = retrieve_falsy_k_uses_top_k[OF h, of "''q''", unfolded top]
  from t have a: "retrieve demo_env three_chunks ''q'' None = retrieve demo_env three_chunks ''q'' (Some 5)"
    and b: "retrieve demo_env three_chunks ''q'' (Some 0) = retrieve demo_env three_chunks ''q'' (Some 5)"
    by blast+
  from t have "\<exists>ds. retrieve demo_env three_chunks ''q'' (Some 0) = Inr ds \<and> length ds = nat 5 \<and> ds \<noteq> []"
    by blast
  then have c: "\<exists>ds. retrieve demo_env three_chunks ''q'' (Some 0) = Inr ds \<and> length ds = 5 \<and> ds \<noteq> []"
    by simp
  show ?thesis
    using h a b c by blast
qed

section \<open>Persistence: auxiliary facts\<close>

lemma universal_newlines_id: "CHR 0x0D \<notin> set s \<Longrightarrow> universal_newlines s = s"
  by (induction s rule: universal_newlines.induct) auto


lemma prefix_append_long:
  "prefix xs (ys @ zs) \<Longrightarrow> length xs \<le> length ys \<Longrightarrow> prefix xs ys"
  by (auto simp: prefix_append)

text \<open>
  The first cut of \<^verbatim>\<open>split\<close> falls after the chunk when the separator does not occur
  earlier.
\<close>

lemma py_split_chunk:
  assumes "sep \<noteq> []" "\<not> sublist sep (c @ butlast sep)"
  shows "py_split sep (c @ sep @ rest) = c # py_split sep rest"
  using assms(2)
proof (induction c)
  case Nil
  obtain a sep' where sep: "sep = a # sep'" using assms(1) by (cases sep) auto
  have "py_split sep (a # sep' @ rest) = [] # py_split sep rest"
    using sep by (subst py_split.simps) simp
  then show ?case using sep by simp
next
  case (Cons a c)
  have whole: "(a # c @ butlast sep) @ (last sep # rest) = a # c @ sep @ rest"
    using assms(1) by (metis append.assoc append_Cons append_Nil append_butlast_last_id)
  have np: "\<not> prefix sep (a # c @ butlast sep)" and tl: "\<not> sublist sep (c @ butlast sep)"
    using Cons.prems by (auto simp: sublist_Cons_right)
  have len: "length sep \<le> length (a # c @ butlast sep)" by simp
  have "\<not> prefix sep (a # c @ sep @ rest)"
  proof
    assume "prefix sep (a # c @ sep @ rest)"
    then have "prefix sep ((a # c @ butlast sep) @ (last sep # rest))"
      by (simp only: whole)
    then have "prefix sep (a # c @ butlast sep)"
      using len by (rule prefix_append_long)
    with np show False by contradiction
  qed
  then have "py_split sep (a # c @ sep @ rest) = cons_first a (py_split sep (c @ sep @ rest))"
    by simp
  then show ?case using Cons.IH[OF tl] by simp
qed

lemma py_split_manifest:
  assumes "\<forall>d\<in>set docs. \<not> sublist DOCUMENT_SEPARATOR (page_content d @ butlast DOCUMENT_SEPARATOR)"
  shows "py_split DOCUMENT_SEPARATOR (manifest docs) = map page_content docs @ [[]]"
  using assms
proof (induction docs)
  case Nil
  show ?case by (simp add: manifest_def)
next
  case (Cons d docs)
  have ne: "DOCUMENT_SEPARATOR \<noteq> []" by (simp add: DOCUMENT_SEPARATOR_def)
  have "manifest (d # docs) = page_content d @ DOCUMENT_SEPARATOR @ manifest docs"
    by (simp add: manifest_def)
  then show ?case using Cons py_split_chunk[OF ne, of "page_content d" "manifest docs"] by simp
qed

lemma py_strip_Nil: "py_strip [] = []"
  by (simp add: py_strip_def)


lemma CR_notin_manifest:
  assumes "\<forall>d\<in>set docs. CHR 0x0D \<notin> set (page_content d)"
  shows "CHR 0x0D \<notin> set (manifest docs)"
proof -
  have "CHR 0x0D \<notin> set DOCUMENT_SEPARATOR" by (simp add: DOCUMENT_SEPARATOR_def)
  with assms show ?thesis by (auto simp: manifest_def)
qed

text \<open>Reading back the manifest of safe chunks gives their texts, in order.\<close>

lemma parse_manifest_manifest:
  assumes "\<forall>d\<in>set docs. manifest_safe (page_content d)"
  shows "parse_manifest (universal_newlines (manifest docs)) =
         map (\<lambda>d. Document (page_content d)) docs"
proof -
  have "universal_newlines (manifest docs) = manifest docs"
    using assms by (intro universal_newlines_id CR_notin_manifest) (simp add: manifest_safe_def)
  moreover have "py_split DOCUMENT_SEPARATOR (manifest docs) = map page_content docs @ [[]]"
    using assms by (intro py_split_manifest) (simp add: manifest_safe_def)
  moreover have "filter (\<lambda>t. py_strip t \<noteq> []) (map page_content docs) = map page_content docs"
    using assms by (auto simp: manifest_safe_def filter_id_conv)
  moreover have "map (\<lambda>t. Document (py_strip t)) (map page_content docs)
      = map (\<lambda>d. Document (page_content d)) docs"
    using assms by (simp add: manifest_safe_def)
  ultimately show ?thesis
    by (simp add: parse_manifest_def py_strip_Nil)
qed

lemma load_after_save:
  assumes "index r = Some xb"
  shows "load_index career r0 (save_index career r fs) =
     (Inr True, r0\<lparr>index := Some xb,
                   documents := parse_manifest (universal_newlines (manifest (documents r)))\<rparr>)"
  using assms by (simp add: load_index_def save_index_def)


section \<open>Building: auxiliary facts\<close>







section \<open>Persistence and building: the claims\<close>

text \<open>
  Claim C3, as the code has it. When the retriever has an index and every chunk text is
  safe for the manifest (not empty, unchanged by \<^verbatim>\<open>strip()\<close>, without carriage return,
  the separator occurring nowhere in it), \<^verbatim>\<open>save_index\<close> followed by \<^verbatim>\<open>load_index\<close>
  for the same career returns \<^verbatim>\<open>True\<close> and restores the same number of chunks, in the
  same order, each with the same text (and with empty metadata), beside the saved index.
\<close>

theorem save_then_load_restores_safe_chunks:
  assumes "index r = Some xb"
    and "\<forall>d\<in>set (documents r). manifest_safe (page_content d)"
  shows "load_index career r0 (save_index career r fs) =
           (Inr True, \<lparr>index = Some xb,
                       documents = map (\<lambda>d. Document (page_content d)) (documents r)\<rparr>)"
  using load_after_save[OF assms(1), of career r0 fs] parse_manifest_manifest[OF assms(2)]
  by simp

theorem save_then_load_restores_safe_chunks_witness:
  "index plain_retriever =
     Some (map demo_encode [''Learn HTML and CSS.\<newline>Then learn JavaScript.'', ''Build a project'']) \<and>
   manifest_safe ''Learn HTML and CSS.\<newline>Then learn JavaScript.'' \<and>
   manifest_safe ''Build a project'' \<and>
   load_index ''Data Science'' init_retriever (save_index ''Data Science'' plain_retriever no_files) =
     (Inr True,
      \<lparr>index = Some (map demo_encode [''Learn HTML and CSS.\<newline>Then learn JavaScript.'', ''Build a project'']),
       documents = map Document [''Learn HTML and CSS.\<newline>Then learn JavaScript.'', ''Build a project'']\<rparr>)"
proof -
  have ix: "index plain_retriever =
     Some (map demo_encode [''Learn HTML and CSS.\<newline>Then learn JavaScript.'', ''Build a project''])"
    by (simp add: plain_retriever_def)
  have s1: "manifest_safe ''Learn HTML and CSS.\<newline>Then learn JavaScript.''"
    by code_simp
  have s2: "manifest_safe ''Build a project''"
    by code_simp
  have safe: "\<forall>d\<in>set (documents plain_retriever). manifest_safe (page_content d)"
    using s1 s2 by (simp add: plain_retriever_def Document_def)
  have docs: "map (\<lambda>d. Document (page_content d)) (documents plain_retriever) =
      map Document [''Learn HTML and CSS.\<newline>Then learn JavaScript.'', ''Build a project'']"
    by (simp add: plain_retriever_def Document_def)
  show ?thesis
    using ix s1 s2
      save_then_load_restores_safe_chunks[OF ix safe, of "''Data Science''" init_retriever no_files]
    by (simp only: docs simp_thms)
qed

text \<open>
  Claim C3 as stated fails. Of the three chunks, the one that contains the separator
  line comes back as two chunks, the one with blanks around its text comes back without
  them, and the blank one does not come back.
\<close>

theorem save_then_load_changes_chunks:
  "map page_content (documents steps_retriever) =
     [''Step 1\<newline>---DOCUMENT_SEPARATOR---\<newline>Step 2'', ''  padded  '', ''   ''] \<and>
   map page_content
     (documents (snd (load_index ''python'' init_retriever
                        (save_index ''python'' steps_retriever no_files)))) =
     [''Step 1'', ''Step 2'', ''padded'']"
  by code_simp




text \<open>
  Claim C5, as the code has it. When \<^verbatim>\<open>load_documents\<close> finds no document for the
  career, \<^verbatim>\<open>build_index\<close> returns normally, with \<^verbatim>\<open>None\<close> as on every return, and
  leaves the retriever as it was: the index (so \<^verbatim>\<open>None\<close> stays \<^verbatim>\<open>None\<close>) and the
  chunk list are unchanged.
\<close>

theorem build_index_without_documents:
  "load_documents career fs = [] \<Longrightarrow> build_index e career r fs = (Inr (), r)"
  by (simp add: build_index_def)

theorem build_index_without_documents_witness:
  "load_documents (Some ''python'') no_files = [] \<and>
   build_index demo_env (Some ''python'') init_retriever no_files = (Inr (), init_retriever)"
proof -
  have h: "load_documents (Some ''python'') no_files = []"
    by (simp add: load_documents_def no_files_def)
  show ?thesis
    using h build_index_without_documents[OF h, of demo_env init_retriever] by simp
qed

text \<open>
  Claim C5 as stated fails: with no document for the career the call ends like a call
  that built an index, so its caller receives no report of the missing data.
\<close>

theorem build_index_reports_nothing:
  "load_documents (Some ''python'') no_files = [] \<and>
   fst (build_index demo_env (Some ''python'') init_retriever no_files) = Inr () \<and>
   fst (build_index demo_env (Some ''python'') init_retriever python_files) = Inr () \<and>
   index (snd (build_index demo_env (Some ''python'') init_retriever python_files)) =
     Some [[19, 2]]"
  by code_simp

text \<open>
  Claim C6, as the code has it. \<^verbatim>\<open>load_index\<close> returns \<^verbatim>\<open>False\<close> and leaves the
  retriever as it was when the index file does not exist; it raises the library's error
  and leaves the retriever as it was when the index file cannot be parsed; it returns
  \<^verbatim>\<open>False\<close> when the index file is read and the manifest is missing or unreadable; and
  it returns \<^verbatim>\<open>True\<close> whenever both files are read, whatever they hold: the number of
  vectors and the number of chunks are not compared.
\<close>

theorem load_index_outcomes:
  "(index_files fs (index_file career) = None \<longrightarrow> load_index career r fs = (Inr False, r)) \<and>
   (index_files fs (index_file career) = Some Corrupt \<longrightarrow>
      load_index career r fs = (Inl RuntimeError, r)) \<and>
   (index_files fs (index_file career) = Some (Faiss xb) \<and>
    (\<forall>t. docs_files fs (docs_file career) \<noteq> Some (Text t)) \<longrightarrow>
      fst (load_index career r fs) = Inr False) \<and>
   (index_files fs (index_file career) = Some (Faiss xb) \<and>
    docs_files fs (docs_file career) = Some (Text t) \<longrightarrow>
      fst (load_index career r fs) = Inr True)"
  by (auto simp: load_index_def Let_def split: option.splits text_file.splits)

theorem load_index_outcomes_witness:
  "index_files no_files (index_file ''python'') = None \<and>
   load_index ''python'' three_chunks no_files = (Inr False, three_chunks) \<and>
   index_files corrupt_files (index_file ''python'') = Some Corrupt \<and>
   load_index ''python'' init_retriever corrupt_files = (Inl RuntimeError, init_retriever) \<and>
   index_files index_only_files (index_file ''python'') = Some (Faiss [[1, 0], [2, 0]]) \<and>
   docs_files index_only_files (docs_file ''python'') = None \<and>
   fst (load_index ''python'' init_retriever index_only_files) = Inr False \<and>
   index_files mismatched_files (index_file ''python'') = Some (Faiss [[1, 0], [2, 0]]) \<and>
   docs_files mismatched_files (docs_file ''python'') =
     Some (Text ''only chunk\<newline>---DOCUMENT_SEPARATOR---\<newline>'') \<and>
   fst (load_index ''python'' init_retriever mismatched_files) = Inr True"
proof -
  have n: "index_file ''python'' = ''python_index.faiss''" "docs_file ''python'' = ''python_docs.txt''"
    by code_simp+
  have a: "index_files no_files (index_file ''python'') = None"
    by (simp add: no_files_def)
  have b: "index_files corrupt_files (index_file ''python'') = Some Corrupt"
    by (simp add: corrupt_files_def no_files_def n)
  have c: "index_files index_only_files (index_file ''python'') = Some (Faiss [[1, 0], [2, 0]])"
    "docs_files index_only_files (docs_file ''python'') = None"
    by (simp_all add: index_only_files_def no_files_def n)
  have c': "\<forall>t. docs_files index_only_files (docs_file ''python'') \<noteq> Some (Text t)"
    using c(2) by simp
  have d: "index_files mismatched_files (index_file ''python'') = Some (Faiss [[1, 0], [2, 0]])"
    "docs_files mismatched_files (docs_file ''python'') =
       Some (Text ''only chunk\<newline>---DOCUMENT_SEPARATOR---\<newline>'')"
    by (simp_all add: mismatched_files_def no_files_def n DOCUMENT_SEPARATOR_def)
  from load_index_outcomes[of no_files "''python''" three_chunks] a
  have 1: "load_index ''python'' three_chunks no_files = (Inr False, three_chunks)" by blast
  from load_index_outcomes[of corrupt_files "''python''" init_retriever] b
  have 2: "load_index ''python'' init_retriever corrupt_files = (Inl RuntimeError, init_retriever)"
    by blast
  from load_index_outcomes[of index_only_files "''python''" init_retriever "[[1, 0], [2, 0]]"] c(1) c'
  have 3: "fst (load_index ''python'' init_retriever index_only_files) = Inr False" by blast
  from load_index_outcomes[of mismatched_files "''python''" init_retriever "[[1, 0], [2, 0]]"
      "''only chunk\<newline>---DOCUMENT_SEPARATOR---\<newline>''"] d
  have 4: "fst (load_index ''python'' init_retriever mismatched_files) = Inr True" by blast
  show ?thesis using a b c d 1 2 3 4 by blast
qed

text \<open>
  Claim C6 as stated fails: an index file of two vectors beside a manifest of one chunk
  is loaded with \<^verbatim>\<open>True\<close>, and the retriever then holds the two vectors and the one
  chunk.
\<close>

theorem load_index_accepts_mismatch:
  "load_index ''python'' init_retriever mismatched_files =
     (Inr True, \<lparr>index = Some [[1, 0], [2, 0]], documents = [Document ''only chunk'']\<rparr>)"
  by code_simp



section \<open>The chunker: the bound on the chunk length\<close>

lemma length_py_strip: "length (py_strip s) \<le> length s"
proof -
  have "length (py_strip s) \<le> length (dropWhile py_isspace s)"
    by (simp add: py_strip_def length_dropWhile_le del: rev_rev_ident)
       (metis length_dropWhile_le length_rev)
  also have "\<dots> \<le> length s" by (rule length_dropWhile_le)
  finally show ?thesis .
qed

lemma join_docs_length:
  "join_docs current = Some doc \<Longrightarrow> length doc \<le> length (concat current)"
  using length_py_strip[of "concat current"]
  by (auto simp: join_docs_def Let_def split: if_splits)

lemma pop_overlap_ok:
  assumes "0 \<le> ov"
  shows "\<exists>kept. pop_overlap cs ov len current (int (length (concat current))) =
            Inr (kept, int (length (concat kept))) \<and>
          int (length (concat kept)) \<le> ov \<and>
          (int (length (concat kept)) + len \<le> cs \<or> concat kept = [])"
  using assms
proof (induction current)
  case Nil
  then show ?case by simp
next
  case (Cons first rest)
  have step: "int (length (concat (first # rest))) - int (length first) = int (length (concat rest))"
    by simp
  show ?case
  proof (cases "int (length (concat (first # rest))) > ov \<or>
      (int (length (concat (first # rest))) + len > cs \<and> int (length (concat (first # rest))) > 0)")
    case True
    then have "pop_overlap cs ov len (first # rest) (int (length (concat (first # rest)))) =
       pop_overlap cs ov len rest (int (length (concat rest)))"
      by (simp only: pop_overlap.simps step if_True)
    with Cons show ?thesis by simp
  next
    case False
    then have "pop_overlap cs ov len (first # rest) (int (length (concat (first # rest)))) =
       Inr (first # rest, int (length (concat (first # rest))))"
      by (simp only: pop_overlap.simps if_False)
    moreover have "int (length (concat (first # rest))) \<le> ov"
      using False by linarith
    moreover have "int (length (concat (first # rest))) + len \<le> cs \<or> concat (first # rest) = []"
    proof (cases "int (length (concat (first # rest))) + len \<le> cs")
      case True
      then show ?thesis by blast
    next
      case over: False
      with False have "\<not> int (length (concat (first # rest))) > 0" by linarith
      then have "length (concat (first # rest)) = 0" by linarith
      then have "concat (first # rest) = []" by (rule length_0_conv[THEN iffD1])
      then show ?thesis by blast
    qed
    ultimately show ?thesis by blast
  qed
qed

lemma merge_loop_bounded:
  assumes "0 \<le> ov"
    and "int (length (concat current)) \<le> cs"
    and "\<forall>d\<in>set splits. int (length d) < cs"
    and "\<forall>c\<in>set docs. int (length c) \<le> cs"
  shows "\<exists>out. merge_loop cs ov docs current (int (length (concat current))) splits = Inr out \<and>
               (\<forall>c\<in>set out. int (length c) \<le> cs)"
  using assms(2-4)
proof (induction splits arbitrary: docs current)
  case Nil
  show ?case
  proof (cases "join_docs current")
    case None
    with Nil show ?thesis by simp
  next
    case (Some doc)
    from join_docs_length[OF this] Nil.prems(1) have "int (length doc) \<le> cs" by linarith
    with Some Nil show ?thesis by simp
  qed
next
  case (Cons d splits)
  let ?emit = "docs @ (case join_docs current of None \<Rightarrow> [] | Some doc \<Rightarrow> [doc])"
  have emit: "\<forall>c\<in>set ?emit. int (length c) \<le> cs"
  proof (cases "join_docs current")
    case None
    with Cons.prems(3) show ?thesis by simp
  next
    case (Some doc)
    from join_docs_length[OF this] Cons.prems(1) have "int (length doc) \<le> cs" by linarith
    with Some Cons.prems(3) show ?thesis by simp
  qed
  have d: "int (length d) < cs" and rest: "\<forall>d\<in>set splits. int (length d) < cs"
    using Cons.prems(2) by simp_all
  show ?case
  proof (cases "int (length (concat current)) + int (length d) > cs \<and> current \<noteq> []")
    case True
    from pop_overlap_ok[OF assms(1), of cs "int (length d)" current]
    obtain kept where pop: "pop_overlap cs ov (int (length d)) current (int (length (concat current))) =
            Inr (kept, int (length (concat kept)))"
      and small: "int (length (concat kept)) + int (length d) \<le> cs \<or> concat kept = []"
      by blast
    have tot: "int (length (concat kept)) + int (length d) = int (length (concat (kept @ [d])))"
      by simp
    have "int (length (concat kept)) + int (length d) \<le> cs"
    proof (cases "concat kept = []")
      case True
      then have "length (concat kept) = 0" by (rule length_0_conv[THEN iffD2])
      with d show ?thesis by linarith
    next
      case False
      with small show ?thesis by blast
    qed
    then have new: "int (length (concat (kept @ [d]))) \<le> cs"
      by (simp only: tot)
    from Cons.IH[OF new rest emit]
    obtain out where out: "merge_loop cs ov ?emit (kept @ [d]) (int (length (concat (kept @ [d])))) splits = Inr out"
      and bounded: "\<forall>c\<in>set out. int (length c) \<le> cs" by blast
    have "merge_loop cs ov docs current (int (length (concat current))) (d # splits) =
        merge_loop cs ov ?emit (kept @ [d]) (int (length (concat kept)) + int (length d)) splits"
      by (subst merge_loop.simps) (simp only: True if_True pop bind_result_def sum.case prod.case simp_thms)
    also have "\<dots> = Inr out" by (simp only: tot out)
    finally show ?thesis using bounded by blast
  next
    case False
    have new: "int (length (concat (current @ [d]))) \<le> cs"
      using False d by (cases "current = []") auto
    have tot: "int (length (concat current)) + int (length d) = int (length (concat (current @ [d])))"
      by simp
    from Cons.IH[OF new rest Cons.prems(3)]
    obtain out where out: "merge_loop cs ov docs (current @ [d]) (int (length (concat (current @ [d])))) splits = Inr out"
      and bounded: "\<forall>c\<in>set out. int (length c) \<le> cs" by blast
    have "merge_loop cs ov docs current (int (length (concat current))) (d # splits) =
        merge_loop cs ov docs (current @ [d]) (int (length (concat current)) + int (length d)) splits"
      by (subst merge_loop.simps) (simp only: False if_False)
    also have "\<dots> = Inr out" by (simp only: tot out)
    finally show ?thesis using bounded by blast
  qed
qed

lemma merge_splits_bounded:
  assumes "0 \<le> ov" "0 \<le> cs" "\<forall>d\<in>set splits. int (length d) < cs"
  shows "\<exists>out. merge_splits cs ov splits = Inr out \<and> (\<forall>c\<in>set out. int (length c) \<le> cs)"
  using merge_loop_bounded[OF assms(1), of "[]" cs splits "[]"] assms(2,3)
  by (simp add: merge_splits_def)

lemma split_loop_bounded:
  assumes "0 \<le> ov" "0 \<le> cs"
    and "\<forall>s\<in>set good. int (length s) < cs"
    and "case deeper of
           None \<Rightarrow> \<forall>s\<in>set splits. int (length s) \<le> cs
         | Some f \<Rightarrow> \<forall>s. \<exists>out. f s = Inr out \<and> (\<forall>c\<in>set out. int (length c) \<le> cs)"
  shows "\<exists>out. split_loop cs ov deeper good splits = Inr out \<and>
               (\<forall>c\<in>set out. int (length c) \<le> cs)"
  using assms(3,4)
proof (induction splits arbitrary: good)
  case Nil
  then show ?case
    using merge_splits_bounded[OF assms(1,2), of good] by auto
next
  case (Cons s splits)
  have deeper': "case deeper of
           None \<Rightarrow> \<forall>s\<in>set splits. int (length s) \<le> cs
         | Some f \<Rightarrow> \<forall>s. \<exists>out. f s = Inr out \<and> (\<forall>c\<in>set out. int (length c) \<le> cs)"
    using Cons.prems(2) by (auto split: option.splits)
  show ?case
  proof (cases "int (length s) < cs")
    case True
    then have "\<forall>s\<in>set (good @ [s]). int (length s) < cs" using Cons.prems(1) by simp
    from Cons.IH[OF this deeper'] show ?thesis using True by simp
  next
    case False
    obtain merged where m: "(if good \<noteq> [] then merge_splits cs ov good else Inr []) = Inr merged"
      and mb: "\<forall>c\<in>set merged. int (length c) \<le> cs"
      using merge_splits_bounded[OF assms(1,2) Cons.prems(1)] by (cases "good = []") auto
    obtain other where o: "(case deeper of None \<Rightarrow> Inr [s] | Some f \<Rightarrow> f s) = Inr other"
      and ob: "\<forall>c\<in>set other. int (length c) \<le> cs"
    proof (cases deeper)
      case None
      with Cons.prems(2) have "int (length s) \<le> cs" by simp
      with None that[of "[s]"] show ?thesis by simp
    next
      case (Some f)
      with Cons.prems(2) obtain out where "f s = Inr out" "\<forall>c\<in>set out. int (length c) \<le> cs"
        by auto
      with Some that[of out] show ?thesis by simp
    qed
    have "\<forall>s\<in>set []. int (length (s::string)) < cs" by simp
    from Cons.IH[OF this deeper']
    obtain final where f: "split_loop cs ov deeper [] splits = Inr final"
      and fb: "\<forall>c\<in>set final. int (length c) \<le> cs" by blast
    have "split_loop cs ov deeper good (s # splits) = Inr (merged @ other @ final)"
      using False m o f by (simp add: bind_result_def)
    with mb ob fb show ?thesis by auto
  qed
qed

lemma choose_separator_shorter:
  "choose_separator separators text = Some (separator, new_separators) \<Longrightarrow>
   length new_separators < length separators"
  by (induction separators) (auto split: if_splits)

lemma choose_separator_with_empty:
  assumes "[] \<in> set separators"
  shows "\<exists>separator new_separators.
           choose_separator separators text = Some (separator, new_separators) \<and>
           (if separator = [] then new_separators = [] else [] \<in> set new_separators)"
  using assms
proof (induction separators)
  case Nil
  then show ?case by simp
next
  case (Cons s rest)
  show ?case
  proof (cases "s = []")
    case True
    then show ?thesis by simp
  next
    case False
    with Cons.prems have in_rest: "[] \<in> set rest" by auto
    show ?thesis
    proof (cases "sublist s text")
      case True
      with False in_rest show ?thesis by simp
    next
      case no: False
      with False Cons.IH[OF in_rest] show ?thesis by simp
    qed
  qed
qed

lemma split_text_bounded:
  assumes "[] \<in> set separators" "0 < cs" "0 \<le> ov"
  shows "\<exists>out. split_text cs ov separators text = Inr out \<and> (\<forall>c\<in>set out. int (length c) \<le> cs)"
  using assms(1)
proof (induction separators arbitrary: "text" rule: measure_induct_rule[where f = length])
  case (less separators)
  from choose_separator_with_empty[OF less.prems, of "text"]
  obtain separator new_separators
    where ch: "choose_separator separators text = Some (separator, new_separators)"
      and sh: "if separator = [] then new_separators = [] else [] \<in> set new_separators"
    by blast
  have ne: "separators \<noteq> []" using less.prems by auto
  let ?deeper = "if new_separators = [] then None else Some (split_text cs ov new_separators)"
  have unf: "split_text cs ov separators text =
      split_loop cs ov ?deeper [] (split_text_with_regex text separator)"
    using ne ch by (subst split_text.simps) simp
  have "case ?deeper of
           None \<Rightarrow> \<forall>s\<in>set (split_text_with_regex text separator). int (length s) \<le> cs
         | Some f \<Rightarrow> \<forall>s. \<exists>out. f s = Inr out \<and> (\<forall>c\<in>set out. int (length c) \<le> cs)"
  proof (cases "separator = []")
    case True
    with sh have "new_separators = []" by simp
    moreover have "\<forall>s\<in>set (split_text_with_regex text separator). int (length s) \<le> cs"
      using True assms(2) by (auto simp: split_text_with_regex_def)
    ultimately show ?thesis by simp
  next
    case False
    with sh have in_new: "[] \<in> set new_separators" by simp
    then have nn: "new_separators \<noteq> []" by auto
    have "length new_separators < length separators"
      using ch by (rule choose_separator_shorter)
    from less.IH[OF this in_new] nn show ?thesis by simp
  qed
  from split_loop_bounded[OF assms(3) _ _ this, of "[]"] assms(2)
  show ?case by (simp add: unf)
qed

lemma create_documents_bounded:
  assumes "0 < cs" "0 \<le> ov"
  shows "\<exists>chunks. create_documents cs ov docs = Inr chunks \<and>
                  (\<forall>c\<in>set chunks. int (length (page_content c)) \<le> cs)"
proof (induction docs)
  case Nil
  show ?case by simp
next
  case (Cons doc docs)
  have "[] \<in> set SEPARATORS" by (simp add: SEPARATORS_def)
  from split_text_bounded[OF this assms, of "page_content doc"]
  obtain out where "split_text cs ov SEPARATORS (page_content doc) = Inr out"
    and "\<forall>c\<in>set out. int (length c) \<le> cs" by blast
  with Cons show ?case by (auto simp: bind_result_def)
qed

text \<open>
  Claim C9, for the chunker as modelled. With a positive overlap below the chunk size,
  splitting any documents succeeds and no chunk has more characters than the chunk size.
\<close>

theorem chunks_within_chunk_size:
  assumes "text_splitter e = RecursiveCharacterTextSplitter"
    and "0 < CHUNK_OVERLAP e" "CHUNK_OVERLAP e < CHUNK_SIZE e"
  shows "\<exists>chunks. split_documents e docs = Inr chunks \<and>
                  (\<forall>c\<in>set chunks. int (length (page_content c)) \<le> CHUNK_SIZE e)"
proof -
  have "0 < CHUNK_SIZE e" "0 \<le> CHUNK_OVERLAP e" using assms(2,3) by simp_all
  from create_documents_bounded[OF this, of docs] show ?thesis
    using assms by (simp add: split_documents_def RecursiveCharacterTextSplitter_def)
qed

theorem chunks_within_chunk_size_witness:
  "text_splitter splitter_env = RecursiveCharacterTextSplitter \<and>
   0 < CHUNK_OVERLAP splitter_env \<and> CHUNK_OVERLAP splitter_env < CHUNK_SIZE splitter_env \<and>
   (\<exists>chunks. split_documents splitter_env [scenario_document] = Inr chunks \<and>
             list_all (\<lambda>c. int (length (page_content c)) \<le> 40) chunks) \<and>
   split_documents splitter_env [scenario_document] =
     Inr (map Document [''Python is great for data science and has'',
                        ''and has role in machine learning'', ''.''])"
proof -
  have h: "text_splitter splitter_env = RecursiveCharacterTextSplitter"
    "0 < CHUNK_OVERLAP splitter_env" "CHUNK_OVERLAP splitter_env < CHUNK_SIZE splitter_env"
    by (simp_all add: splitter_env_def demo_env_def)
  have size: "CHUNK_SIZE splitter_env = 40"
    by (simp add: splitter_env_def demo_env_def)
  from chunks_within_chunk_size[OF h, of "[scenario_document]"]
  have bound: "\<exists>chunks. split_documents splitter_env [scenario_document] = Inr chunks \<and>
             list_all (\<lambda>c. int (length (page_content c)) \<le> 40) chunks"
    by (simp only: size list_all_iff)
  have run: "split_documents splitter_env [scenario_document] =
     Inr (map Document [''Python is great for data science and has'',
                        ''and has role in machine learning'', ''.''])"
    by code_simp
  from h bound run show ?thesis by blast
qed

end
